theory Spec2Isabelle
  imports Complex_Main "HOL-Library.List_Lexorder" "HOL-Library.Char_ord" "HOL-Library.Multiset"
begin

section \<open>Execution memory: data model\<close>

text \<open>
  The embedding follows \<^verbatim>\<open>memory/memory_manager.py\<close>, \<^verbatim>\<open>memory/strategy_store.py\<close> and
  \<^verbatim>\<open>memory/rating_system.py\<close>.

  \<^item> Python \<^verbatim>\<open>int\<close> is \<open>int\<close>; Python \<^verbatim>\<open>float\<close> is \<open>real\<close> (rounding is not modelled);
    \<^verbatim>\<open>str\<close> is \<open>string\<close>, ordered lexicographically as SQLite's BINARY collation does.
  \<^item> The SQLite database is the pair of tables \<open>execution_records\<close> and
    \<open>similarity_index\<close>, each a list of rows in insertion order. The SQL statements are
    modelled by their effect on the tables; an \<^verbatim>\<open>sqlite3\<close> exception (I/O failure, locked
    file) is outside the model, so the \<^verbatim>\<open>except\<close> handlers, which only such an exception
    reaches, have no branch here.
  \<^item> The language model behind \<^verbatim>\<open>_extract_keywords\<close>, \<^verbatim>\<open>hashlib.md5\<close> and
    \<^verbatim>\<open>datetime.now\<close> are parameters: \<open>llm\<close>, \<open>md5\<close> and \<open>now\<close>.
  \<^item> The messages of the source are Chinese text; each message template is a constructor.
\<close>

record ExecutionRecord =
  rec_id :: string
  question :: string
  execution_steps :: "string list"
  result :: string
  rating :: int
  timestamp :: string
  task_type :: string
  success :: bool
  execution_time :: real
  similarity_keywords :: "string list"

text \<open>A row of \<open>similarity_index\<close>: keyword, record id, weight.\<close>

type_synonym IndexRow = "string \<times> string \<times> real"

text \<open>
  The state a \<^verbatim>\<open>MemoryManager\<close> works on: the two tables, and two counters that make the
  effects visible: how often \<^verbatim>\<open>_extract_keywords\<close> has been invoked and how often
  \<^verbatim>\<open>sqlite3.connect\<close> has been called.
\<close>

record Memory =
  execution_records :: "ExecutionRecord list"
  similarity_index :: "IndexRow list"
  extract_calls :: nat
  db_connects :: nat

text \<open>The database after \<^verbatim>\<open>_init_database\<close> on a fresh directory.\<close>

definition init_database :: Memory where
  "init_database =
     \<lparr>execution_records = [], similarity_index = [], extract_calls = 0, db_connects = 1\<rparr>"

text \<open>
  An \<^verbatim>\<open>ExecutionRecord\<close> object as \<^verbatim>\<open>find_similar_executions\<close> returns it: the dataclass
  fields and the attribute \<^verbatim>\<open>weighted_score\<close> set on the object afterwards
  (\<open>None\<close>: the attribute is absent, which \<^verbatim>\<open>hasattr\<close> tests).
\<close>

record ScoredRecord =
  base :: ExecutionRecord
  weighted_score :: "real option"

section \<open>memory\_manager.py\<close>

text \<open>
  \<^verbatim>\<open>_generate_record_id\<close>: the first 12 characters of the hex digest of
  \<^verbatim>\<open>f"{question}_{timestamp}"\<close>.
\<close>

definition generate_record_id :: "(string \<Rightarrow> string) \<Rightarrow> string \<Rightarrow> string \<Rightarrow> string" where
  "generate_record_id md5 q ts = take 12 (md5 (q @ ''_'' @ ts))"

text \<open>
  \<^verbatim>\<open>_extract_keywords\<close>: every path of the source ends in \<^verbatim>\<open>[:10]\<close>. What is cut
  (the answer of the language model split at commas, or the regular-expression tokens) is
  the parameter \<open>llm\<close>, which may depend on the number of earlier invocations.
\<close>

type_synonym Extractor = "nat \<Rightarrow> string \<Rightarrow> string list \<Rightarrow> string list"

definition extract_keywords ::
  "Extractor \<Rightarrow> string \<Rightarrow> string list \<Rightarrow> Memory \<Rightarrow> string list \<times> Memory" where
  "extract_keywords llm q steps m =
     (take 10 (llm (extract_calls m) q steps), m\<lparr>extract_calls := Suc (extract_calls m)\<rparr>)"

definition connect :: "Memory \<Rightarrow> Memory" where
  "connect m = m\<lparr>db_connects := Suc (db_connects m)\<rparr>"

text \<open>\<^verbatim>\<open>INSERT OR REPLACE\<close> on the primary key \<open>id\<close>: a row with the same id is deleted,
  the new row is added.\<close>

definition insert_or_replace :: "ExecutionRecord \<Rightarrow> ExecutionRecord list \<Rightarrow> ExecutionRecord list" where
  "insert_or_replace r rows = filter (\<lambda>x. rec_id x \<noteq> rec_id r) rows @ [r]"

text \<open>\<^verbatim>\<open>DELETE FROM similarity_index WHERE record_id = ?\<close>\<close>

definition delete_index :: "string \<Rightarrow> IndexRow list \<Rightarrow> IndexRow list" where
  "delete_index i idx = filter (\<lambda>(k, j, w). j \<noteq> i) idx"

datatype StoreOutcome =
    NotStored             \<comment> \<open>the rating is below four stars, nothing is stored\<close>
  | Stored string         \<comment> \<open>stored under this record id\<close>
  | StoreFailed string    \<comment> \<open>the \<^verbatim>\<open>except\<close> branch; not produced by this model\<close>

definition store_execution ::
  "Extractor \<Rightarrow> (string \<Rightarrow> string) \<Rightarrow> string \<Rightarrow>
   string \<Rightarrow> string list \<Rightarrow> string \<Rightarrow> int \<Rightarrow> string \<Rightarrow> bool \<Rightarrow> real \<Rightarrow>
   Memory \<Rightarrow> StoreOutcome \<times> Memory" where
  "store_execution llm md5 now q steps res rt ttype succ etime m =
     (if rt < 4 then (NotStored, m)
      else
        let record_id = generate_record_id md5 q now;
            (keywords, m1) = extract_keywords llm q steps m;
            record = \<lparr>rec_id = record_id, question = q, execution_steps = steps,
                      result = res, rating = rt, timestamp = now, task_type = ttype,
                      success = succ, execution_time = etime,
                      similarity_keywords = keywords\<rparr>;
            m2 = connect m1;
            m3 = m2\<lparr>execution_records := insert_or_replace record (execution_records m2)\<rparr>;
            m4 = m3\<lparr>similarity_index := delete_index record_id (similarity_index m3)\<rparr>;
            m5 = m4\<lparr>similarity_index :=
                      similarity_index m4 @ map (\<lambda>keyword. (keyword, record_id, 1)) keywords\<rparr>
        in (Stored record_id, m5))"

subsection \<open>The ranking query of find\_similar\_executions\<close>

text \<open>
  \<^verbatim>\<open>COUNT(s.keyword)\<close> of the group of record \<open>r\<close>: the index rows joined to \<open>r\<close> whose
  keyword is \<^verbatim>\<open>IN\<close> the query keywords.
\<close>

definition match_count :: "IndexRow list \<Rightarrow> string list \<Rightarrow> ExecutionRecord \<Rightarrow> nat" where
  "match_count idx kws r = length (filter (\<lambda>(k, j, w). j = rec_id r \<and> k \<in> set kws) idx)"

definition weighted_score_sql :: "nat \<Rightarrow> ExecutionRecord \<Rightarrow> real" where
  "weighted_score_sql mc r =
     real mc * 1 + real_of_int (rating r) * 2
     + (if success r then 1 else 0)
     + (if rating r \<ge> 5 then 3 else if rating r \<ge> 4 then 3 / 2 else 0)"

text \<open>A row of the query's result: \<^verbatim>\<open>r.*\<close>, \<open>match_count\<close>, \<open>weighted_score\<close>.\<close>

type_synonym QueryRow = "ExecutionRecord \<times> nat \<times> real"

text \<open>
  \<^verbatim>\<open>ORDER BY weighted_score DESC, r.rating DESC, r.timestamp DESC\<close>: \<open>order_by a b\<close> says
  that row \<open>a\<close> may stand before row \<open>b\<close>.
\<close>

definition order_by :: "QueryRow \<Rightarrow> QueryRow \<Rightarrow> bool" where
  "order_by a b =
     (case (a, b) of ((ra, ma, sa), (rb, mb, sb)) \<Rightarrow>
        sa > sb \<or> (sa = sb \<and> (rating ra > rating rb
                   \<or> (rating ra = rating rb \<and> timestamp ra \<ge> timestamp rb))))"

text \<open>Sorting by insertion; rows that tie on all three keys keep their order.\<close>

fun insort_by :: "('a \<Rightarrow> 'a \<Rightarrow> bool) \<Rightarrow> 'a \<Rightarrow> 'a list \<Rightarrow> 'a list" where
  "insort_by le x [] = [x]"
| "insort_by le x (y # ys) = (if le x y then x # y # ys else y # insort_by le x ys)"

definition sort_by :: "('a \<Rightarrow> 'a \<Rightarrow> bool) \<Rightarrow> 'a list \<Rightarrow> 'a list" where
  "sort_by le xs = foldr (insort_by le) xs []"

text \<open>\<^verbatim>\<open>LIMIT ?\<close>: SQLite treats a negative limit as no limit.\<close>

definition sql_limit :: "int \<Rightarrow> 'a list \<Rightarrow> 'a list" where
  "sql_limit n xs = (if n < 0 then xs else take (nat n) xs)"

text \<open>
  The rows before \<^verbatim>\<open>ORDER BY\<close> and \<^verbatim>\<open>LIMIT\<close>: one group per record that joins at least one
  index row with a query keyword.
\<close>

definition matching_rows :: "Memory \<Rightarrow> string list \<Rightarrow> QueryRow list" where
  "matching_rows m kws =
     map (\<lambda>r. (r, match_count (similarity_index m) kws r,
                weighted_score_sql (match_count (similarity_index m) kws r) r))
       (filter (\<lambda>r. match_count (similarity_index m) kws r > 0) (execution_records m))"

definition similar_query :: "Memory \<Rightarrow> string list \<Rightarrow> int \<Rightarrow> QueryRow list" where
  "similar_query m kws limit = sql_limit limit (sort_by order_by (matching_rows m kws))"

definition row_to_record :: "QueryRow \<Rightarrow> ScoredRecord" where
  "row_to_record row = (case row of (r, mc, s) \<Rightarrow> \<lparr>base = r, weighted_score = Some s\<rparr>)"

definition find_similar_executions ::
  "Extractor \<Rightarrow> string \<Rightarrow> int \<Rightarrow> Memory \<Rightarrow> ScoredRecord list \<times> Memory" where
  "find_similar_executions llm q limit m =
     (let (current_keywords, m1) = extract_keywords llm q [] m in
      if current_keywords = [] then ([], m1)
      else
        let m2 = connect m1;
            rows = similar_query m2 current_keywords limit
        in (map row_to_record rows, m2))"

text \<open>\<^verbatim>\<open>get_all_records\<close>: \<^verbatim>\<open>SELECT * ... ORDER BY timestamp DESC LIMIT ?\<close>\<close>

definition get_all_records :: "int \<Rightarrow> Memory \<Rightarrow> ExecutionRecord list \<times> Memory" where
  "get_all_records limit m =
     (let m1 = connect m
      in (sql_limit limit (sort_by (\<lambda>a b. timestamp a \<ge> timestamp b) (execution_records m1)), m1))"

definition delete_record :: "string \<Rightarrow> Memory \<Rightarrow> bool \<times> Memory" where
  "delete_record record_id m =
     (let m1 = connect m;
          m2 = m1\<lparr>similarity_index := delete_index record_id (similarity_index m1)\<rparr>;
          m3 = m2\<lparr>execution_records := filter (\<lambda>r. rec_id r \<noteq> record_id) (execution_records m2)\<rparr>
      in (True, m3))"

subsection \<open>get\_statistics\<close>

text \<open>\<^verbatim>\<open>SELECT key, COUNT(*) ... GROUP BY key\<close>: one pair per distinct key.\<close>

definition group_count :: "('a \<Rightarrow> 'k) \<Rightarrow> 'a list \<Rightarrow> ('k \<times> nat) list" where
  "group_count f rows =
     map (\<lambda>k. (k, length (filter (\<lambda>r. f r = k) rows))) (remdups (map f rows))"

text \<open>\<^verbatim>\<open>AVG\<close> is \<^verbatim>\<open>NULL\<close> (Python \<^verbatim>\<open>None\<close>) on no rows.\<close>

definition sql_avg :: "real list \<Rightarrow> real option" where
  "sql_avg xs = (if xs = [] then None else Some (sum_list xs / real (length xs)))"

text \<open>\<^verbatim>\<open>x or 0.0\<close>: \<^verbatim>\<open>None\<close> and \<^verbatim>\<open>0.0\<close> are falsy.\<close>

definition or_zero :: "real option \<Rightarrow> real" where
  "or_zero x = (case x of None \<Rightarrow> 0 | Some a \<Rightarrow> if a = 0 then 0 else a)"

record Statistics =
  total_records :: nat
  rating_distribution :: "(int \<times> nat) list"
  task_type_distribution :: "(string \<times> nat) list"
  success_rate :: real

definition get_statistics :: "Memory \<Rightarrow> Statistics \<times> Memory" where
  "get_statistics m =
     (let m1 = connect m;
          rows = execution_records m1;
          total = length rows;
          rating_stats = sort_by (\<lambda>a b. fst a \<ge> fst b) (group_count rating rows);
          type_stats = group_count task_type rows;
          rate = or_zero (sql_avg (map (\<lambda>r. if success r then 1 else 0) rows))
      in (\<lparr>total_records = total, rating_distribution = rating_stats,
           task_type_distribution = type_stats, success_rate = rate\<rparr>, m1))"

section \<open>strategy\_store.py\<close>

text \<open>An entry of \<^verbatim>\<open>weighted_steps\<close>.\<close>

record WeightedStep =
  step :: string
  weight :: real
  step_rating :: int
  record_id :: string

text \<open>The records that pass \<^verbatim>\<open>record.rating >= 4 and record.success\<close>.\<close>

definition high_quality_records :: "ScoredRecord list \<Rightarrow> ScoredRecord list" where
  "high_quality_records similar_records =
     filter (\<lambda>x. rating (base x) \<ge> 4 \<and> success (base x)) similar_records"

definition record_weight :: "ScoredRecord \<Rightarrow> real" where
  "record_weight x =
     (let w = (if rating (base x) = 5 then 3 else if rating (base x) = 4 then 3 / 2 else 1)
      in case weighted_score x of
           Some s \<Rightarrow> if s > 0 then w * (1 + s / 10) else w
         | None \<Rightarrow> w)"

definition weighted_steps :: "ScoredRecord list \<Rightarrow> WeightedStep list" where
  "weighted_steps similar_records =
     concat (map (\<lambda>x. map (\<lambda>s. \<lparr>step = s, weight = record_weight x,
                                   step_rating = rating (base x), record_id = rec_id (base x)\<rparr>)
                        (execution_steps (base x)))
              (high_quality_records similar_records))"

definition base_confidence :: "ScoredRecord \<Rightarrow> real" where
  "base_confidence x = (real_of_int (rating (base x)) / 5) * (8 / 10) + 2 / 10"

definition confidence_scores :: "ScoredRecord list \<Rightarrow> real list" where
  "confidence_scores similar_records =
     map (\<lambda>x. base_confidence x * record_weight x) (high_quality_records similar_records)"

text \<open>
  The loop that removes duplicates: \<open>seen\<close> is \<^verbatim>\<open>seen_steps\<close>, \<open>unique\<close> is
  \<^verbatim>\<open>unique_steps\<close>; the loop breaks once 15 steps are collected.
\<close>

fun unique_loop :: "WeightedStep list \<Rightarrow> string set \<Rightarrow> string list \<Rightarrow> string list" where
  "unique_loop [] seen unique = unique"
| "unique_loop (item # items) seen unique =
     (if step item \<notin> seen
      then (if length (unique @ [step item]) \<ge> 15 then unique @ [step item]
            else unique_loop items (insert (step item) seen) (unique @ [step item]))
      else unique_loop items seen unique)"

text \<open>\<^verbatim>\<open>weighted_steps.sort(key=lambda x: x['weight'], reverse=True)\<close>: a stable sort,
  largest weight first.\<close>

definition sort_steps :: "WeightedStep list \<Rightarrow> WeightedStep list" where
  "sort_steps ws = sort_key (\<lambda>x. - weight x) ws"

definition five_star_count :: "ScoredRecord list \<Rightarrow> nat" where
  "five_star_count hq = length (filter (\<lambda>r. rating (base r) = 5) hq)"

definition avg_confidence :: "ScoredRecord list \<Rightarrow> real" where
  "avg_confidence similar_records =
     (let cs = confidence_scores similar_records in
      if cs \<noteq> [] then
        (let avg = sum_list cs / real (length cs);
             five = five_star_count (high_quality_records similar_records)
         in if five > 0 then min (avg * (1 + real five * (1 / 10))) 1 else avg)
      else 0)"

datatype SuggestionMessage =
    NoSimilarRecords          \<comment> \<open>no similar execution record was found\<close>
  | QualityInsufficient       \<comment> \<open>similar records were found, none of sufficient quality\<close>
  | BasedOn nat nat           \<comment> \<open>number of high quality records, number of five star records\<close>

text \<open>An entry of \<^verbatim>\<open>similar_records\<close>: question, rating, timestamp, task type,
  weighted score.\<close>

type_synonym SimilarInfo = "string \<times> int \<times> string \<times> string \<times> real"

record Suggestions =
  has_suggestions :: bool
  message :: SuggestionMessage
  suggested_steps :: "string list"
  confidence :: real
  similar_records :: "SimilarInfo list option"

text \<open>The body of \<^verbatim>\<open>get_strategy_suggestions\<close> after the records are fetched.\<close>

definition suggestions_from :: "ScoredRecord list \<Rightarrow> Suggestions" where
  "suggestions_from similar =
     (if similar = [] then
        \<lparr>has_suggestions = False, message = NoSimilarRecords, suggested_steps = [],
         confidence = 0, similar_records = None\<rparr>
      else if weighted_steps similar = [] then
        \<lparr>has_suggestions = False, message = QualityInsufficient, suggested_steps = [],
         confidence = 0, similar_records = None\<rparr>
      else
        let hq = high_quality_records similar;
            unique_steps = unique_loop (sort_steps (weighted_steps similar)) {} []
        in \<lparr>has_suggestions = True,
            message = BasedOn (length hq) (five_star_count hq),
            suggested_steps = unique_steps,
            confidence = avg_confidence similar,
            similar_records =
              Some (map (\<lambda>x. (question (base x), rating (base x), timestamp (base x),
                               task_type (base x),
                               (case weighted_score x of Some s \<Rightarrow> s | None \<Rightarrow> 0))) hq)\<rparr>)"

definition get_strategy_suggestions ::
  "Extractor \<Rightarrow> string \<Rightarrow> Memory \<Rightarrow> Suggestions \<times> Memory" where
  "get_strategy_suggestions llm q m =
     (let (similar, m1) = find_similar_executions llm q 5 m
      in (suggestions_from similar, m1))"

section \<open>rating\_system.py\<close>

definition should_store_execution :: "int \<Rightarrow> bool" where
  "should_store_execution rt = (rt \<ge> 4)"

datatype StorageMessage =
    StorageResult StoreOutcome   \<comment> \<open>the text \<^verbatim>\<open>store_execution\<close> returned\<close>
  | BelowThreshold               \<comment> \<open>rated below four stars, not stored\<close>

datatype RatingResult =
    RatingRejected               \<comment> \<open>the rating is not in 1..5\<close>
  | RatingProcessed bool int StorageMessage nat string
      \<comment> \<open>stored, rating, storage message, number of records shown, feedback\<close>

definition process_rating ::
  "Extractor \<Rightarrow> (string \<Rightarrow> string) \<Rightarrow> string \<Rightarrow>
   int \<Rightarrow> string \<Rightarrow> string list \<Rightarrow> string \<Rightarrow> string \<Rightarrow> real \<Rightarrow> string \<Rightarrow>
   Memory \<Rightarrow> RatingResult \<times> Memory" where
  "process_rating llm md5 now rt q steps res ttype etime feedback m =
     (if rt < 1 \<or> rt > 5 then (RatingRejected, m)
      else
        let succ = (rt \<ge> 4);
            (stored, storage_message, m1) =
              (if rt \<ge> 4
               then (let (out, m') = store_execution llm md5 now q steps res rt ttype succ etime m
                     in (True, StorageResult out, m'))
               else (False, BelowThreshold, m));
            (records, m2) = get_all_records 50 m1
        in (RatingProcessed stored rt storage_message (length records) feedback, m2))"

section \<open>Notions used to state the properties\<close>

text \<open>
  The memories a \<^verbatim>\<open>MemoryManager\<close> can be in: the freshly initialised database, changed
  only through the methods of the class.
\<close>

inductive reachable :: "Extractor \<Rightarrow> (string \<Rightarrow> string) \<Rightarrow> Memory \<Rightarrow> bool"
  for llm :: Extractor and md5 :: "string \<Rightarrow> string" where
  reach_init: "reachable llm md5 init_database"
| reach_store: "reachable llm md5 m \<Longrightarrow>
     reachable llm md5 (snd (store_execution llm md5 now q steps res rt ttype succ etime m))"
| reach_find: "reachable llm md5 m \<Longrightarrow>
     reachable llm md5 (snd (find_similar_executions llm q limit m))"
| reach_all: "reachable llm md5 m \<Longrightarrow> reachable llm md5 (snd (get_all_records limit m))"
| reach_delete: "reachable llm md5 m \<Longrightarrow> reachable llm md5 (snd (delete_record i m))"
| reach_stats: "reachable llm md5 m \<Longrightarrow> reachable llm md5 (snd (get_statistics m))"

text \<open>The memories reached when records are stored through \<^verbatim>\<open>process_rating\<close> only.\<close>

inductive rated :: "Extractor \<Rightarrow> (string \<Rightarrow> string) \<Rightarrow> Memory \<Rightarrow> bool"
  for llm :: Extractor and md5 :: "string \<Rightarrow> string" where
  rated_init: "rated llm md5 init_database"
| rated_step: "rated llm md5 m \<Longrightarrow>
     rated llm md5 (snd (process_rating llm md5 now rt q steps res ttype etime feedback m))"



subsection \<open>Notions for the deduplicated step list\<close>

text \<open>The elements of a list that are not in \<open>S\<close>, each at its first occurrence.\<close>

fun first_occurrences :: "'a set \<Rightarrow> 'a list \<Rightarrow> 'a list" where
  "first_occurrences S [] = []"
| "first_occurrences S (x # xs) =
     (if x \<in> S then first_occurrences S xs else x # first_occurrences (insert x S) xs)"

text \<open>
  Step \<open>s\<close> outweighs step \<open>t\<close>: some occurrence of \<open>s\<close> among the weighted steps has a
  weight at least that of every occurrence of \<open>t\<close>, that is, the highest weight of \<open>s\<close> is
  at least the highest weight of \<open>t\<close>.
\<close>

definition outweighs :: "WeightedStep list \<Rightarrow> string \<Rightarrow> string \<Rightarrow> bool" where
  "outweighs ws s t =
     (\<exists>x \<in> set ws. step x = s \<and> (\<forall>y \<in> set ws. step y = t \<longrightarrow> weight y \<le> weight x))"


subsection \<open>The match count of the specification\<close>

text \<open>
  The specification's \<open>matchCount\<close>: the number of query keywords that are also in the
  record's keyword set, a keyword repeated in the query counting once.
\<close>

definition keyword_matches :: "string list \<Rightarrow> ExecutionRecord \<Rightarrow> nat" where
  "keyword_matches kws r =
     length (filter (\<lambda>k. k \<in> set (similarity_keywords r)) (remdups kws))"

subsection \<open>A small memory to run the code on\<close>

definition demo_llm :: Extractor where
  "demo_llm n q steps = [''ai'']"

definition demo_md5 :: "string \<Rightarrow> string" where
  "demo_md5 s = s"

text \<open>One four star record, stored by \<^verbatim>\<open>store_execution\<close>.\<close>

definition demo_four :: Memory where
  "demo_four =
     snd (store_execution demo_llm demo_md5 ''t1'' ''ai news'' [''open browser'']
            ''done'' 4 ''search'' True 1 init_database)"

text \<open>The same memory with one five star record added.\<close>

definition demo_four_five :: Memory where
  "demo_four_five =
     snd (store_execution demo_llm demo_md5 ''t2'' ''ai trends'' [''search'']
            ''done'' 5 ''search'' True 1 demo_four)"

text \<open>Two fetched records that share steps; the four star record stands first.\<close>

definition demo_similar :: "ScoredRecord list" where
  "demo_similar =
     [\<lparr>base = \<lparr>rec_id = ''b'', question = ''ai news'',
                execution_steps = [''search'', ''summarize'', ''open''], result = ''done'',
                rating = 4, timestamp = ''t1'', task_type = ''search'', success = True,
                execution_time = 1, similarity_keywords = [''ai'']\<rparr>,
       weighted_score = Some (23 / 2)\<rparr>,
      \<lparr>base = \<lparr>rec_id = ''a'', question = ''ai trends'',
                execution_steps = [''open'', ''search''], result = ''done'',
                rating = 5, timestamp = ''t2'', task_type = ''search'', success = True,
                execution_time = 1, similarity_keywords = [''ai'']\<rparr>,
       weighted_score = Some 15\<rparr>]"



section \<open>Properties\<close>

subsection \<open>Effects of the operations on the counters\<close>

lemma store_execution_admitted_effects:
  "4 \<le> rt \<Longrightarrow>
   extract_calls (snd (store_execution llm md5 now q steps res rt ttype succ etime m))
     = Suc (extract_calls m)
   \<and> db_connects (snd (store_execution llm md5 now q steps res rt ttype succ etime m))
     = Suc (db_connects m)"
  by (simp add: store_execution_def extract_keywords_def connect_def Let_def)

lemma find_similar_with_keywords_connects:
  "fst (extract_keywords llm q [] m) \<noteq> [] \<Longrightarrow>
   db_connects (snd (find_similar_executions llm q limit m)) = Suc (db_connects m)"
  by (simp add: find_similar_executions_def extract_keywords_def connect_def Let_def)

subsection \<open>The rating threshold of store\_execution\<close>

text \<open>
  Claim C8. A call of \<^verbatim>\<open>store_execution\<close> with a rating below 4 returns the "not stored"
  message and leaves the memory as it was: the keyword extractor is not invoked (its call
  counter is unchanged), no database connection is opened, and both tables are unchanged.
\<close>

theorem store_execution_below_four:
  assumes "rt < 4"
  shows "fst (store_execution llm md5 now q steps res rt ttype succ etime m) = NotStored
    \<and> snd (store_execution llm md5 now q steps res rt ttype succ etime m) = m
    \<and> extract_calls (snd (store_execution llm md5 now q steps res rt ttype succ etime m))
        = extract_calls m
    \<and> db_connects (snd (store_execution llm md5 now q steps res rt ttype succ etime m))
        = db_connects m
    \<and> execution_records (snd (store_execution llm md5 now q steps res rt ttype succ etime m))
        = execution_records m
    \<and> similarity_index (snd (store_execution llm md5 now q steps res rt ttype succ etime m))
        = similarity_index m"
  using assms by (simp add: store_execution_def)

theorem store_execution_below_four_witness:
  "(3::int) < 4
   \<and> fst (store_execution demo_llm demo_md5 ''t3'' ''ai'' [''open''] ''bad'' 3 ''search'' True 1
            demo_four) = NotStored
   \<and> extract_calls (snd (store_execution demo_llm demo_md5 ''t3'' ''ai'' [''open''] ''bad'' 3
                           ''search'' True 1 demo_four)) = 1
   \<and> length (execution_records (snd (store_execution demo_llm demo_md5 ''t3'' ''ai'' [''open'']
                           ''bad'' 3 ''search'' True 1 demo_four))) = 1"
proof -
  have h: "(3::int) < 4" by simp
  have d: "extract_calls demo_four = 1 \<and> length (execution_records demo_four) = 1"
    by (simp add: demo_four_def store_execution_def extract_keywords_def connect_def
        init_database_def insert_or_replace_def Let_def)
  show ?thesis
    using store_execution_below_four [OF h, of demo_llm demo_md5 "''t3''" "''ai''" "[''open'']"
        "''bad''" "''search''" True 1 demo_four] d
    by simp
qed

subsection \<open>A question without keywords\<close>

text \<open>
  Claim C5. When the keyword extraction for the question yields the empty list,
  \<^verbatim>\<open>find_similar_executions\<close> returns the empty list and does not query the record store:
  no database connection is opened, and the memory changes only in the count of extractor
  invocations.
\<close>

theorem find_similar_no_keywords:
  assumes "fst (extract_keywords llm q [] m) = []"
  shows "fst (find_similar_executions llm q limit m) = []
    \<and> db_connects (snd (find_similar_executions llm q limit m)) = db_connects m
    \<and> snd (find_similar_executions llm q limit m) = m\<lparr>extract_calls := Suc (extract_calls m)\<rparr>"
  using assms by (simp add: find_similar_executions_def extract_keywords_def)

theorem find_similar_no_keywords_witness:
  "fst (extract_keywords (\<lambda>n q steps. []) ''???'' [] demo_four) = []
   \<and> fst (find_similar_executions (\<lambda>n q steps. []) ''???'' 3 demo_four) = []
   \<and> db_connects (snd (find_similar_executions (\<lambda>n q steps. []) ''???'' 3 demo_four))
       = db_connects demo_four"
proof -
  have h: "fst (extract_keywords (\<lambda>n q steps. []) ''???'' [] demo_four) = []"
    by (simp add: extract_keywords_def)
  show ?thesis
    using find_similar_no_keywords [OF h, of 3] h by simp
qed

subsection \<open>Statistics of an empty store\<close>

text \<open>
  Claim C9. On a record store without records \<^verbatim>\<open>get_statistics\<close> returns the aggregates
  total count 0, empty rating histogram, empty task type histogram and success rate 0.0
  (the \<^verbatim>\<open>AVG\<close> over no rows is \<^verbatim>\<open>None\<close>, which \<^verbatim>\<open>or 0.0\<close> turns into 0.0); the model has
  no error result for it.
\<close>

theorem get_statistics_empty:
  assumes "execution_records m = []"
  shows "fst (get_statistics m) =
           \<lparr>total_records = 0, rating_distribution = [],
            task_type_distribution = [], success_rate = 0\<rparr>"
  using assms
  by (simp add: get_statistics_def connect_def group_count_def sort_by_def sql_avg_def
      or_zero_def)

theorem get_statistics_empty_witness:
  "execution_records init_database = []
   \<and> fst (get_statistics init_database) =
           \<lparr>total_records = 0, rating_distribution = [],
            task_type_distribution = [], success_rate = 0\<rparr>"
proof -
  have h: "execution_records init_database = []" by (simp add: init_database_def)
  show ?thesis using get_statistics_empty [OF h] h by simp
qed


subsection \<open>Facts about the tables\<close>

lemma set_insort_by: "set (insort_by le x xs) = insert x (set xs)"
  by (induction xs) auto

lemma set_sort_by: "set (sort_by le xs) = set xs"
  by (induction xs) (auto simp: sort_by_def set_insort_by)



lemma set_sql_limit: "set (sql_limit n xs) \<subseteq> set xs"
  by (auto simp: sql_limit_def dest: in_set_takeD)

lemma store_execution_records:
  "execution_records (snd (store_execution llm md5 now q steps res rt ttype succ etime m)) =
     (if rt < 4 then execution_records m
      else insert_or_replace
             \<lparr>rec_id = generate_record_id md5 q now, question = q, execution_steps = steps,
              result = res, rating = rt, timestamp = now, task_type = ttype,
              success = succ, execution_time = etime,
              similarity_keywords = fst (extract_keywords llm q steps m)\<rparr>
             (execution_records m))"
  by (simp add: store_execution_def extract_keywords_def connect_def Let_def)

lemma store_execution_index:
  "similarity_index (snd (store_execution llm md5 now q steps res rt ttype succ etime m)) =
     (if rt < 4 then similarity_index m
      else delete_index (generate_record_id md5 q now) (similarity_index m)
           @ map (\<lambda>keyword. (keyword, generate_record_id md5 q now, 1))
               (fst (extract_keywords llm q steps m)))"
  by (simp add: store_execution_def extract_keywords_def connect_def Let_def)

lemma find_similar_records [simp]:
  "execution_records (snd (find_similar_executions llm q limit m)) = execution_records m"
  by (simp add: find_similar_executions_def extract_keywords_def connect_def Let_def)

lemma get_all_records_records [simp]:
  "execution_records (snd (get_all_records limit m)) = execution_records m"
  by (simp add: get_all_records_def connect_def Let_def)

lemma get_statistics_records [simp]:
  "execution_records (snd (get_statistics m)) = execution_records m"
  by (simp add: get_statistics_def connect_def Let_def)

lemma delete_record_records:
  "set (execution_records (snd (delete_record i m))) \<subseteq> set (execution_records m)"
  by (auto simp: delete_record_def connect_def Let_def)

lemma set_insert_or_replace:
  "set (insert_or_replace r rows) = insert r {x \<in> set rows. rec_id x \<noteq> rec_id r}"
  by (auto simp: insert_or_replace_def)

lemma in_insert_or_replace: "r \<in> set (insert_or_replace r rows)"
  by (simp add: insert_or_replace_def)

lemma find_similar_subset:
  "base ` set (fst (find_similar_executions llm q limit m)) \<subseteq> set (execution_records m)"
proof -
  have "base ` set (map row_to_record (similar_query m' kws limit)) \<subseteq> set (execution_records m')" for m' kws
  proof -
    have "set (similar_query m' kws limit) \<subseteq> set (matching_rows m' kws)"
      unfolding similar_query_def using set_sql_limit set_sort_by by fastforce
    then show ?thesis
      by (auto simp: matching_rows_def row_to_record_def)
  qed
  from this[of "connect (snd (extract_keywords llm q [] m))"] show ?thesis
    by (auto simp: find_similar_executions_def Let_def connect_def extract_keywords_def split: prod.splits)
qed

lemma get_all_records_subset:
  "set (fst (get_all_records limit m)) \<subseteq> set (execution_records m)"
  using set_sql_limit[of limit "sort_by (\<lambda>a b. timestamp a \<ge> timestamp b) (execution_records m)"]
  by (auto simp: get_all_records_def Let_def connect_def set_sort_by)

lemma reachable_ratings:
  "reachable llm md5 m \<Longrightarrow> \<forall>r \<in> set (execution_records m). rating r \<ge> 4"
proof (induction rule: reachable.induct)
  case reach_init
  then show ?case by (simp add: init_database_def)
next
  case (reach_store m now q steps res rt ttype succ etime)
  then show ?case
    by (auto simp: store_execution_records set_insert_or_replace)
next
  case (reach_delete m i)
  then show ?case using delete_record_records by blast
qed simp_all

subsection \<open>The admission gate\<close>

text \<open>
  Claim C3. The admission decision \<^verbatim>\<open>should_store_execution\<close> equals \<open>rating \<ge> 4\<close>. In
  every memory reached from the initialised database through the methods of
  \<^verbatim>\<open>MemoryManager\<close>, every stored record has a rating of at least 4, so no record rated
  below 4 is returned by \<^verbatim>\<open>find_similar_executions\<close> or \<^verbatim>\<open>get_all_records\<close>. And a call
  of \<^verbatim>\<open>store_execution\<close> leaves a record with the id, question, timestamp and rating of the
  call in the store if and only if the rating is at least 4.
\<close>

theorem rating_gate_invariant:
  assumes "reachable llm md5 m"
  shows "should_store_execution rt = (rt \<ge> 4)
    \<and> (\<forall>r \<in> set (execution_records m). rating r \<ge> 4)
    \<and> (\<forall>x \<in> set (fst (find_similar_executions llm q' limit m)). rating (base x) \<ge> 4)
    \<and> (\<forall>r \<in> set (fst (get_all_records limit m)). rating r \<ge> 4)
    \<and> ((\<exists>r \<in> set (execution_records
                      (snd (store_execution llm md5 now q steps res rt ttype succ etime m))).
            rec_id r = generate_record_id md5 q now \<and> question r = q \<and> timestamp r = now
            \<and> rating r = rt)
         = (rt \<ge> 4))"
proof -
  have inv: "\<forall>r \<in> set (execution_records m). rating r \<ge> 4"
    using assms by (rule reachable_ratings)
  have a: "\<forall>x \<in> set (fst (find_similar_executions llm q' limit m)). rating (base x) \<ge> 4"
    using inv find_similar_subset[of llm q' limit m] by blast
  have b: "\<forall>r \<in> set (fst (get_all_records limit m)). rating r \<ge> 4"
    using inv get_all_records_subset[of limit m] by blast
  have c: "(\<exists>r \<in> set (execution_records
                      (snd (store_execution llm md5 now q steps res rt ttype succ etime m))).
            rec_id r = generate_record_id md5 q now \<and> question r = q \<and> timestamp r = now
            \<and> rating r = rt)
         = (rt \<ge> 4)"
  proof (cases "rt < 4")
    case True
    then show ?thesis using inv by (auto simp: store_execution_records)
  next
    case False
    then show ?thesis
      by (auto simp: store_execution_records set_insert_or_replace)
  qed
  show ?thesis using inv a b c by (simp add: should_store_execution_def)
qed


lemma demo_four_value:
  "demo_four = \<lparr>execution_records =
      [\<lparr>rec_id = ''ai news_t1'', question = ''ai news'', execution_steps = [''open browser''],
        result = ''done'', rating = 4, timestamp = ''t1'', task_type = ''search'',
        success = True, execution_time = 1, similarity_keywords = [''ai'']\<rparr>],
      similarity_index = [(''ai'', ''ai news_t1'', 1)], extract_calls = 1, db_connects = 2\<rparr>"
  by (simp add: demo_four_def demo_llm_def demo_md5_def store_execution_def extract_keywords_def
      connect_def init_database_def generate_record_id_def insert_or_replace_def delete_index_def
      Let_def)

theorem rating_gate_invariant_witness:
  "reachable demo_llm demo_md5 demo_four
   \<and> map rating (execution_records demo_four) = [4]
   \<and> \<not> should_store_execution 3
   \<and> map rating (execution_records
         (snd (store_execution demo_llm demo_md5 ''t3'' ''ai'' [''open''] ''bad'' 3
                ''search'' True 1 demo_four))) = [4]"
proof -
  have h: "reachable demo_llm demo_md5 demo_four"
    unfolding demo_four_def by (rule reach_store) (rule reach_init)
  show ?thesis
    using h rating_gate_invariant [OF h, where rt = 3 and now = "''t3''" and q = "''ai''"
        and steps = "[''open'']" and res = "''bad''" and ttype = "''search''" and succ = True
        and etime = 1]
    by (simp add: demo_four_value store_execution_def)
qed

subsection \<open>Records stored through process\_rating\<close>

lemma process_rating_records:
  "execution_records (snd (process_rating llm md5 now rt q steps res ttype etime feedback m)) =
     (if rt < 1 \<or> rt > 5 \<or> rt < 4 then execution_records m
      else execution_records
             (snd (store_execution llm md5 now q steps res rt ttype True etime m)))"
  by (simp add: process_rating_def Let_def case_prod_beta)

text \<open>
  Claim C10. Every record stored through \<^verbatim>\<open>process_rating\<close> has \<open>success = True\<close>: this
  holds of every record of a memory built by \<^verbatim>\<open>process_rating\<close> calls from the
  initialised database; on any memory, a record that is in the store after a call and was
  not there before has \<open>success = True\<close>; and a call rated 4 or 5 does store such a
  record.
\<close>

theorem process_rating_success:
  assumes "rated llm md5 m"
  shows "(\<forall>r \<in> set (execution_records m). success r)
    \<and> (\<forall>r \<in> set (execution_records
                    (snd (process_rating llm md5 now rt q steps res ttype etime feedback m0))).
          r \<in> set (execution_records m0) \<or> success r)
    \<and> (4 \<le> rt \<and> rt \<le> 5 \<longrightarrow>
         (\<exists>r \<in> set (execution_records
                    (snd (process_rating llm md5 now rt q steps res ttype etime feedback m0))).
            rec_id r = generate_record_id md5 q now \<and> rating r = rt \<and> success r))"
proof -
  have step: "\<forall>r \<in> set (execution_records
                    (snd (process_rating llm md5 now' rt' q' steps' res' ttype' etime' fb' m'))).
          r \<in> set (execution_records m') \<or> success r"
    for now' rt' q' steps' res' ttype' etime' fb' m'
    by (auto simp: process_rating_records store_execution_records set_insert_or_replace)
  have inv: "\<forall>r \<in> set (execution_records m). success r"
    using assms
  proof (induction rule: rated.induct)
    case rated_init
    then show ?case by (simp add: init_database_def)
  next
    case (rated_step m now rt q steps res ttype etime feedback)
    then show ?case using step by blast
  qed
  have new: "4 \<le> rt \<and> rt \<le> 5 \<longrightarrow>
         (\<exists>r \<in> set (execution_records
                    (snd (process_rating llm md5 now rt q steps res ttype etime feedback m0))).
            rec_id r = generate_record_id md5 q now \<and> rating r = rt \<and> success r)"
    by (auto simp: process_rating_records store_execution_records set_insert_or_replace)
  show ?thesis using inv step new by blast
qed

theorem process_rating_success_witness:
  "rated demo_llm demo_md5
     (snd (process_rating demo_llm demo_md5 ''t1'' 4 ''ai news'' [''open browser''] ''done''
             ''search'' 1 [] init_database))
   \<and> map success (execution_records
         (snd (process_rating demo_llm demo_md5 ''t1'' 4 ''ai news'' [''open browser''] ''done''
             ''search'' 1 [] init_database))) = [True]"
proof -
  have h: "rated demo_llm demo_md5
     (snd (process_rating demo_llm demo_md5 ''t1'' 4 ''ai news'' [''open browser''] ''done''
             ''search'' 1 [] init_database))"
    by (rule rated_step) (rule rated_init)
  have l: "map success (execution_records
         (snd (process_rating demo_llm demo_md5 ''t1'' 4 ''ai news'' [''open browser''] ''done''
             ''search'' 1 [] init_database))) = [True]"
    by (simp add: process_rating_records store_execution_records insert_or_replace_def
        init_database_def)
  show ?thesis using h l process_rating_success [OF h] by blast
qed

subsection \<open>Storing the same question and timestamp twice\<close>

text \<open>
  Claim C6. Two admitted calls of \<^verbatim>\<open>store_execution\<close> with the same question and
  timestamp (hence the same record id) leave exactly one record under that id, carrying the
  field values of the second call; the index rows of that id are exactly one row of weight
  1.0 per keyword of the second call, the rows of the first call being deleted; records
  and index rows of other ids are untouched.
\<close>

theorem store_twice_same_id:
  assumes "4 \<le> rt1" and "4 \<le> rt2"
    and "m1 = snd (store_execution llm md5 now q steps1 res1 rt1 ttype1 succ1 etime1 m)"
    and "m2 = snd (store_execution llm md5 now q steps2 res2 rt2 ttype2 succ2 etime2 m1)"
  shows "filter (\<lambda>r. rec_id r = generate_record_id md5 q now) (execution_records m2) =
           [\<lparr>rec_id = generate_record_id md5 q now, question = q, execution_steps = steps2,
             result = res2, rating = rt2, timestamp = now, task_type = ttype2,
             success = succ2, execution_time = etime2,
             similarity_keywords = fst (extract_keywords llm q steps2 m1)\<rparr>]
    \<and> filter (\<lambda>(k, j, w). j = generate_record_id md5 q now) (similarity_index m2) =
           map (\<lambda>k. (k, generate_record_id md5 q now, 1)) (fst (extract_keywords llm q steps2 m1))
    \<and> filter (\<lambda>r. rec_id r \<noteq> generate_record_id md5 q now) (execution_records m2) =
           filter (\<lambda>r. rec_id r \<noteq> generate_record_id md5 q now) (execution_records m)
    \<and> filter (\<lambda>(k, j, w). j \<noteq> generate_record_id md5 q now) (similarity_index m2) =
           filter (\<lambda>(k, j, w). j \<noteq> generate_record_id md5 q now) (similarity_index m)"
proof -
  let ?i = "generate_record_id md5 q now"
  have f1: "filter (\<lambda>r. rec_id r = i) (insert_or_replace x rows) = [x]"
    if "rec_id x = i" for x rows i
    using that by (auto simp: insert_or_replace_def filter_empty_conv)
  have f2: "filter (\<lambda>r. rec_id r \<noteq> i) (insert_or_replace x rows)
              = filter (\<lambda>r. rec_id r \<noteq> i) rows" if "rec_id x = i" for x rows i
    using that by (auto simp: insert_or_replace_def)
  have g0: "filter (\<lambda>(k, j, w). j = i) (map (\<lambda>k. (k, i, 1::real)) kws)
              = map (\<lambda>k. (k, i, 1)) kws" for i kws
    by (induction kws) auto
  have g0': "filter (\<lambda>(k, j, w). j \<noteq> i) (map (\<lambda>k. (k, i, 1::real)) kws) = []" for i kws
    by (induction kws) auto
  have g1: "filter (\<lambda>(k, j, w). j = i) (delete_index i idx) = []" for i idx
    by (auto simp: delete_index_def filter_empty_conv)
  have g2: "filter (\<lambda>(k, j, w). j \<noteq> i) (delete_index i idx)
              = filter (\<lambda>(k, j, w). j \<noteq> i) idx" for i idx
    by (auto simp: delete_index_def intro: filter_cong)
  have r2: "execution_records m2 = insert_or_replace
             \<lparr>rec_id = ?i, question = q, execution_steps = steps2,
              result = res2, rating = rt2, timestamp = now, task_type = ttype2,
              success = succ2, execution_time = etime2,
              similarity_keywords = fst (extract_keywords llm q steps2 m1)\<rparr>
             (execution_records m1)"
    using assms(2,4) by (simp add: store_execution_records)
  have r1: "execution_records m1 = insert_or_replace
             \<lparr>rec_id = ?i, question = q, execution_steps = steps1,
              result = res1, rating = rt1, timestamp = now, task_type = ttype1,
              success = succ1, execution_time = etime1,
              similarity_keywords = fst (extract_keywords llm q steps1 m)\<rparr>
             (execution_records m)"
    using assms(1,3) by (simp add: store_execution_records)
  have i2: "similarity_index m2 = delete_index ?i (similarity_index m1)
           @ map (\<lambda>keyword. (keyword, ?i, 1)) (fst (extract_keywords llm q steps2 m1))"
    using assms(2,4) by (simp add: store_execution_index)
  have i1: "similarity_index m1 = delete_index ?i (similarity_index m)
           @ map (\<lambda>keyword. (keyword, ?i, 1)) (fst (extract_keywords llm q steps1 m))"
    using assms(1,3) by (simp add: store_execution_index)
  have c1: "filter (\<lambda>r. rec_id r = ?i) (execution_records m2) =
           [\<lparr>rec_id = ?i, question = q, execution_steps = steps2,
             result = res2, rating = rt2, timestamp = now, task_type = ttype2,
             success = succ2, execution_time = etime2,
             similarity_keywords = fst (extract_keywords llm q steps2 m1)\<rparr>]"
    unfolding r2 by (rule f1) simp
  have c2: "filter (\<lambda>(k, j, w). j = ?i) (similarity_index m2) =
           map (\<lambda>k. (k, ?i, 1)) (fst (extract_keywords llm q steps2 m1))"
    unfolding i2 by (simp only: filter_append g1 g0 append_Nil)
  have c3: "filter (\<lambda>r. rec_id r \<noteq> ?i) (execution_records m2) =
           filter (\<lambda>r. rec_id r \<noteq> ?i) (execution_records m)"
    unfolding r2 r1 by (simp add: f2)
  have c4: "filter (\<lambda>(k, j, w). j \<noteq> ?i) (similarity_index m2) =
           filter (\<lambda>(k, j, w). j \<noteq> ?i) (similarity_index m)"
    unfolding i2 i1 by (simp only: filter_append g2 g0' append_Nil2)
  show ?thesis using c1 c2 c3 c4 by blast
qed

theorem store_twice_same_id_witness:
  "(4::int) \<le> 4 \<and> (4::int) \<le> 5
   \<and> execution_records
        (snd (store_execution demo_llm demo_md5 ''t1'' ''ai news'' [''search''] ''better'' 5
               ''news'' True 2 demo_four)) =
       [\<lparr>rec_id = ''ai news_t1'', question = ''ai news'', execution_steps = [''search''],
         result = ''better'', rating = 5, timestamp = ''t1'', task_type = ''news'',
         success = True, execution_time = 2, similarity_keywords = [''ai'']\<rparr>]
   \<and> similarity_index
        (snd (store_execution demo_llm demo_md5 ''t1'' ''ai news'' [''search''] ''better'' 5
               ''news'' True 2 demo_four)) = [(''ai'', ''ai news_t1'', 1)]"
proof -
  have h1: "(4::int) \<le> 4" and h2: "(4::int) \<le> 5" by simp_all
  show ?thesis
    using store_twice_same_id [OF h1 h2 demo_four_def refl, where ?steps2.0 = "[''search'']"
        and ?res2.0 = "''better''" and ?ttype2.0 = "''news''" and ?succ2.0 = True
        and ?etime2.0 = 2]
    by (simp add: demo_four_value demo_llm_def demo_md5_def store_execution_def
        extract_keywords_def connect_def generate_record_id_def insert_or_replace_def
        delete_index_def Let_def)
qed


subsection \<open>The confidence of a suggestion\<close>

lemma demo_four_five_value:
  "demo_four_five = \<lparr>execution_records =
      [\<lparr>rec_id = ''ai news_t1'', question = ''ai news'', execution_steps = [''open browser''],
        result = ''done'', rating = 4, timestamp = ''t1'', task_type = ''search'',
        success = True, execution_time = 1, similarity_keywords = [''ai'']\<rparr>,
       \<lparr>rec_id = ''ai trends_t2'', question = ''ai trends'', execution_steps = [''search''],
        result = ''done'', rating = 5, timestamp = ''t2'', task_type = ''search'',
        success = True, execution_time = 1, similarity_keywords = [''ai'']\<rparr>],
      similarity_index = [(''ai'', ''ai news_t1'', 1), (''ai'', ''ai trends_t2'', 1)],
      extract_calls = 2, db_connects = 3\<rparr>"
  by (simp add: demo_four_five_def demo_four_value demo_llm_def demo_md5_def store_execution_def
      extract_keywords_def connect_def generate_record_id_def insert_or_replace_def
      delete_index_def Let_def)

lemma demo_four_found:
  "fst (find_similar_executions demo_llm ''ai'' 5 demo_four) =
     [\<lparr>base = \<lparr>rec_id = ''ai news_t1'', question = ''ai news'',
                execution_steps = [''open browser''],
        result = ''done'', rating = 4, timestamp = ''t1'', task_type = ''search'',
        success = True, execution_time = 1, similarity_keywords = [''ai'']\<rparr>,
       weighted_score = Some (23 / 2)\<rparr>]"
  by (simp add: demo_four_value demo_llm_def find_similar_executions_def extract_keywords_def
      connect_def similar_query_def matching_rows_def match_count_def weighted_score_sql_def
      sort_by_def sql_limit_def row_to_record_def Let_def)

lemma demo_four_five_found:
  "fst (find_similar_executions demo_llm ''ai'' 5 demo_four_five) =
     [\<lparr>base = \<lparr>rec_id = ''ai trends_t2'', question = ''ai trends'', execution_steps = [''search''],
        result = ''done'', rating = 5, timestamp = ''t2'', task_type = ''search'',
        success = True, execution_time = 1, similarity_keywords = [''ai'']\<rparr>,
       weighted_score = Some 15\<rparr>,
      \<lparr>base = \<lparr>rec_id = ''ai news_t1'', question = ''ai news'',
                execution_steps = [''open browser''],
        result = ''done'', rating = 4, timestamp = ''t1'', task_type = ''search'',
        success = True, execution_time = 1, similarity_keywords = [''ai'']\<rparr>,
       weighted_score = Some (23 / 2)\<rparr>]"
  by (simp add: demo_four_five_value demo_llm_def find_similar_executions_def extract_keywords_def
      connect_def similar_query_def matching_rows_def match_count_def weighted_score_sql_def
      sort_by_def sql_limit_def row_to_record_def order_by_def Let_def)

lemma get_strategy_suggestions_fst:
  "fst (get_strategy_suggestions llm q m) = suggestions_from (fst (find_similar_executions llm q 5 m))"
  by (simp add: get_strategy_suggestions_def case_prod_beta)

text \<open>
  Claim C1 says that the confidence returned by \<^verbatim>\<open>get_strategy_suggestions\<close> lies in
  [0.0, 1.0]. The code caps the value with \<^verbatim>\<open>min(..., 1.0)\<close> only when a five star record
  contributes. On the memory holding one successful four star record that shares a keyword
  with the question, the weighted score is \<open>1 + 8 + 1 + 1.5 = 11.5\<close>, the record weight
  \<open>1.5 * (1 + 11.5 / 10) = 3.225\<close>, and the returned confidence
  \<open>0.84 * 3.225 = 2.709\<close>.
\<close>

theorem confidence_above_one_on_four_star:
  "confidence (fst (get_strategy_suggestions demo_llm ''ai'' demo_four)) = 2709 / 1000
   \<and> \<not> confidence (fst (get_strategy_suggestions demo_llm ''ai'' demo_four)) \<le> 1"
  by (simp add: get_strategy_suggestions_fst demo_four_found suggestions_from_def
      weighted_steps_def high_quality_records_def record_weight_def avg_confidence_def
      confidence_scores_def base_confidence_def five_star_count_def Let_def)

text \<open>
  Claim C2 says that a suggestion built from four star records only has strictly lower
  confidence than the same set with one five star record added. On the memory above the
  confidence is 2.709; with one successful five star record added the average
  \<open>(2.709 + 7.5) / 2\<close> is boosted and then capped, and the confidence is 1.0: lower, not
  higher.
\<close>

theorem five_star_record_lowers_confidence:
  "confidence (fst (get_strategy_suggestions demo_llm ''ai'' demo_four_five)) = 1
   \<and> confidence (fst (get_strategy_suggestions demo_llm ''ai'' demo_four)) = 2709 / 1000
   \<and> \<not> confidence (fst (get_strategy_suggestions demo_llm ''ai'' demo_four))
        < confidence (fst (get_strategy_suggestions demo_llm ''ai'' demo_four_five))"
  by (simp add: get_strategy_suggestions_fst demo_four_found demo_four_five_found suggestions_from_def
      weighted_steps_def high_quality_records_def record_weight_def avg_confidence_def
      confidence_scores_def base_confidence_def five_star_count_def Let_def)


subsection \<open>The ranking of find\_similar\_executions\<close>

lemma sorted_insort_by:
  assumes total: "\<And>a b. le a b \<or> le b a"
    and trans: "\<And>a b c. le a b \<Longrightarrow> le b c \<Longrightarrow> le a c"
  shows "sorted_wrt le xs \<Longrightarrow> sorted_wrt le (insort_by le x xs)"
proof (induction xs)
  case Nil
  then show ?case by simp
next
  case (Cons y ys)
  show ?case
  proof (cases "le x y")
    case True
    then have "\<forall>z \<in> set (y # ys). le x z"
      using Cons.prems trans by auto
    then show ?thesis using True Cons.prems by simp
  next
    case False
    then have "le y x" using total by blast
    then have "\<forall>z \<in> set (insort_by le x ys). le y z"
      using Cons.prems by (auto simp: set_insort_by)
    then show ?thesis using False Cons by simp
  qed
qed

lemma sorted_sort_by:
  assumes total: "\<And>a b. le a b \<or> le b a"
    and trans: "\<And>a b c. le a b \<Longrightarrow> le b c \<Longrightarrow> le a c"
  shows "sorted_wrt le (sort_by le xs)"
proof (induction xs)
  case Nil
  then show ?case by (simp add: sort_by_def)
next
  case (Cons x xs)
  have "sort_by le (x # xs) = insort_by le x (sort_by le xs)"
    by (simp add: sort_by_def)
  then show ?case using Cons sorted_insort_by[of le, OF total trans] by simp
qed

lemma order_by_total: "order_by a b \<or> order_by b a"
  by (cases a; cases b) (auto simp: order_by_def)

lemma order_by_trans: "order_by a b \<Longrightarrow> order_by b c \<Longrightarrow> order_by a c"
  by (cases a; cases b; cases c) (auto simp: order_by_def)

lemma sorted_wrt_sql_limit: "sorted_wrt R xs \<Longrightarrow> sorted_wrt R (sql_limit n xs)"
  by (simp add: sql_limit_def sorted_wrt_take)

lemma sorted_similar_query: "sorted_wrt order_by (similar_query m kws limit)"
  unfolding similar_query_def
  by (rule sorted_wrt_sql_limit) (rule sorted_sort_by[of order_by, OF order_by_total order_by_trans])






lemma sql_limit_unlimited: "sql_limit n xs = sql_limit n (sql_limit (-1) xs)"
  by (simp add: sql_limit_def)



lemma sorted_wrt_take_closed:
  assumes "sorted_wrt R xs" and "y \<in> set (take k xs)" and "z \<in> set xs" and "\<not> R y z"
  shows "z \<in> set (take k xs)"
proof -
  from assms(2) obtain j where j: "j < length (take k xs)" "take k xs ! j = y"
    by (auto simp: in_set_conv_nth)
  then have jk: "j < k" "j < length xs" "xs ! j = y" by auto
  from assms(3) obtain i where i: "i < length xs" "xs ! i = z"
    by (auto simp: in_set_conv_nth)
  have "\<not> j < i"
    using assms(1,4) i jk sorted_wrt_nth_less[of R xs j i] by auto
  then have "i < k" using jk by simp
  then have "i < length (take k xs)" "take k xs ! i = z" using i by auto
  then show ?thesis by (metis nth_mem)
qed



lemma set_similar_query_subset:
  "set (similar_query m kws limit) \<subseteq> set (matching_rows m kws)"
  unfolding similar_query_def using set_sql_limit[of limit] set_sort_by by fastforce





subsection \<open>The index rows of a reachable memory\<close>

lemma find_similar_index [simp]:
  "similarity_index (snd (find_similar_executions llm q limit m)) = similarity_index m"
  by (simp add: find_similar_executions_def extract_keywords_def connect_def Let_def)

lemma get_all_records_index [simp]:
  "similarity_index (snd (get_all_records limit m)) = similarity_index m"
  by (simp add: get_all_records_def connect_def Let_def)

lemma get_statistics_index [simp]:
  "similarity_index (snd (get_statistics m)) = similarity_index m"
  by (simp add: get_statistics_def connect_def Let_def)

lemma delete_record_tables:
  "execution_records (snd (delete_record i m)) = filter (\<lambda>r. rec_id r \<noteq> i) (execution_records m)
   \<and> similarity_index (snd (delete_record i m)) = delete_index i (similarity_index m)"
  by (simp add: delete_record_def connect_def Let_def)

lemma rows_of_delete_index:
  "j \<noteq> i \<Longrightarrow> filter (\<lambda>(k, j', w). j' = j) (delete_index i idx) = filter (\<lambda>(k, j', w). j' = j) idx"
  by (induction idx) (auto simp: delete_index_def)

lemma rows_of_deleted: "filter (\<lambda>(k, j', w). j' = i) (delete_index i idx) = []"
  by (auto simp: delete_index_def filter_empty_conv)

lemma rows_of_new_same:
  "filter (\<lambda>(k, j', w). j' = i) (map (\<lambda>k. (k, i, 1::real)) kws) = map (\<lambda>k. (k, i, 1)) kws"
  by (induction kws) auto

lemma rows_of_new_other:
  "j \<noteq> i \<Longrightarrow> filter (\<lambda>(k, j', w). j' = j) (map (\<lambda>k. (k, i, 1::real)) kws) = []"
  by (induction kws) auto

text \<open>
  In a reachable memory the index rows of a stored record are one row of weight 1.0 per
  entry of its keyword list.
\<close>

lemma reachable_index_rows:
  "reachable llm md5 m \<Longrightarrow>
   \<forall>r \<in> set (execution_records m).
     filter (\<lambda>(k, j, w). j = rec_id r) (similarity_index m)
       = map (\<lambda>k. (k, rec_id r, 1)) (similarity_keywords r)"
proof (induction rule: reachable.induct)
  case reach_init
  then show ?case by (simp add: init_database_def)
next
  case (reach_store m now q steps res rt ttype succ etime)
  show ?case
  proof (cases "rt < 4")
    case True
    then show ?thesis using reach_store.IH by (simp add: store_execution_def)
  next
    case False
    let ?i = "generate_record_id md5 q now"
    let ?kws = "fst (extract_keywords llm q steps m)"
    let ?m' = "snd (store_execution llm md5 now q steps res rt ttype succ etime m)"
    have idx: "similarity_index ?m' =
        delete_index ?i (similarity_index m) @ map (\<lambda>keyword. (keyword, ?i, 1)) ?kws"
      using False by (simp add: store_execution_index)
    show ?thesis
    proof
      fix r assume r: "r \<in> set (execution_records ?m')"
      show "filter (\<lambda>(k, j, w). j = rec_id r) (similarity_index ?m')
              = map (\<lambda>k. (k, rec_id r, 1)) (similarity_keywords r)"
      proof (cases "rec_id r = ?i")
        case True
        then have "r \<notin> {x \<in> set (execution_records m). rec_id x \<noteq> ?i}" by simp
        then have "similarity_keywords r = ?kws"
          using r False by (auto simp: store_execution_records set_insert_or_replace)
        then show ?thesis
          unfolding idx True by (simp only: filter_append rows_of_deleted rows_of_new_same append_Nil)
      next
        case other: False
        then have old: "r \<in> set (execution_records m)"
          using r by (auto simp: store_execution_records set_insert_or_replace split: if_splits)
        have "filter (\<lambda>(k, j, w). j = rec_id r) (similarity_index ?m')
                = filter (\<lambda>(k, j, w). j = rec_id r) (similarity_index m)"
          unfolding idx
          by (simp only: filter_append rows_of_delete_index[OF other]
              rows_of_new_other[OF other] append_Nil2)
        then show ?thesis using reach_store.IH old by simp
      qed
    qed
  qed
next
  case (reach_delete m i)
  show ?case
  proof
    fix r assume "r \<in> set (execution_records (snd (delete_record i m)))"
    then have r: "r \<in> set (execution_records m)" "rec_id r \<noteq> i"
      by (simp_all add: delete_record_tables)
    then show "filter (\<lambda>(k, j, w). j = rec_id r) (similarity_index (snd (delete_record i m)))
              = map (\<lambda>k. (k, rec_id r, 1)) (similarity_keywords r)"
      using reach_delete.IH by (simp add: delete_record_tables rows_of_delete_index)
  qed
qed simp_all

lemma match_count_as_rows:
  "match_count idx kws r =
     length (filter (\<lambda>k. k \<in> set kws) (map fst (filter (\<lambda>(k, j, w). j = rec_id r) idx)))"
  unfolding match_count_def by (induction idx) auto

lemma match_count_reachable:
  assumes "reachable llm md5 m" and "r \<in> set (execution_records m)"
  shows "match_count (similarity_index m) kws r
           = length (filter (\<lambda>k. k \<in> set kws) (similarity_keywords r))"
proof -
  have "map fst (filter (\<lambda>(k, j, w). j = rec_id r) (similarity_index m)) = similarity_keywords r"
    using reachable_index_rows[OF assms(1)] assms(2) by (simp add: comp_def)
  then show ?thesis by (simp add: match_count_as_rows)
qed


lemma match_count_positive:
  assumes "reachable llm md5 m" and "r \<in> set (execution_records m)"
  shows "(0 < match_count (similarity_index m) kws r) = (0 < keyword_matches kws r)"
proof -
  have "(0 < match_count (similarity_index m) kws r)
          = (\<exists>k \<in> set (similarity_keywords r). k \<in> set kws)"
    by (simp add: match_count_reachable[OF assms] filter_empty_conv)
  moreover have "(0 < keyword_matches kws r) = (\<exists>k \<in> set kws. k \<in> set (similarity_keywords r))"
    by (simp add: keyword_matches_def filter_empty_conv)
  ultimately show ?thesis by blast
qed


subsection \<open>The records the query returns\<close>





subsection \<open>The ranking against the match count of the specification\<close>






subsection \<open>The suggested steps\<close>

lemma unique_loop_closed_form:
  "length u < 15 \<Longrightarrow>
   unique_loop items (set u) u = take 15 (u @ first_occurrences (set u) (map step items))"
proof (induction items arbitrary: u)
  case Nil
  then show ?case by simp
next
  case (Cons item items)
  show ?case
  proof (cases "step item \<in> set u")
    case True
    then show ?thesis using Cons by simp
  next
    case False
    show ?thesis
    proof (cases "length (u @ [step item]) \<ge> 15")
      case True
      then have "length u = 14" using Cons.prems by simp
      then show ?thesis using False True by simp
    next
      case short: False
      then have "length (u @ [step item]) < 15" by simp
      from Cons.IH[OF this] show ?thesis using False short by simp
    qed
  qed
qed

lemma set_first_occurrences: "set (first_occurrences S xs) = set xs - S"
  by (induction xs arbitrary: S) auto

lemma distinct_first_occurrences: "distinct (first_occurrences S xs)"
  by (induction xs arbitrary: S) (auto simp: set_first_occurrences)

lemma length_first_occurrences: "length (first_occurrences S xs) = card (set xs - S)"
  using distinct_card[OF distinct_first_occurrences[of S xs]]
  by (simp add: set_first_occurrences)

lemma outweighs_first_occurrences:
  "sorted_wrt (\<lambda>a b. weight b \<le> weight a) L \<Longrightarrow>
   sorted_wrt (outweighs L) (first_occurrences S (map step L))"
proof (induction L arbitrary: S)
  case Nil
  then show ?case by simp
next
  case (Cons a r)
  have le: "\<forall>y \<in> set r. weight y \<le> weight a" and sr: "sorted_wrt (\<lambda>a b. weight b \<le> weight a) r"
    using Cons.prems by auto
  have keep: "outweighs (a # r) s t" if "outweighs r s t" "t \<noteq> step a" for s t
    using that unfolding outweighs_def by auto
  have mono: "sorted_wrt (outweighs (a # r)) xs"
    if "sorted_wrt (outweighs r) xs" "step a \<notin> set xs" for xs
    using that keep by (induction xs) auto
  show ?case
  proof (cases "step a \<in> S")
    case True
    have "step a \<notin> set (first_occurrences S (map step r))"
      using True by (simp add: set_first_occurrences)
    then show ?thesis using True mono[OF Cons.IH[OF sr, of S]] by simp
  next
    case False
    have notin: "step a \<notin> set (first_occurrences (insert (step a) S) (map step r))"
      by (simp add: set_first_occurrences)
    have head: "outweighs (a # r) (step a) t" for t
      unfolding outweighs_def using le by auto
    show ?thesis
      using False head mono[OF Cons.IH[OF sr, of "insert (step a) S"] notin] by simp
  qed
qed

lemma sort_steps_sorted: "sorted_wrt (\<lambda>a b. weight b \<le> weight a) (sort_steps ws)"
proof -
  have "sorted (map (\<lambda>x. - weight x) (sort_steps ws))"
    unfolding sort_steps_def by (rule sorted_sort_key)
  then show ?thesis by (simp add: sorted_map)
qed

lemma set_sort_steps: "set (sort_steps ws) = set ws"
  by (simp add: sort_steps_def)

lemma outweighs_cong: "set ws = set ws' \<Longrightarrow> outweighs ws = outweighs ws'"
  by (simp add: outweighs_def fun_eq_iff)

lemma weighted_steps_Nil: "weighted_steps [] = []"
  by (simp add: weighted_steps_def high_quality_records_def)

lemma suggested_steps_closed_form:
  "suggested_steps (suggestions_from similar) =
     take 15 (first_occurrences {} (map step (sort_steps (weighted_steps similar))))"
proof (cases "weighted_steps similar = []")
  case True
  then show ?thesis by (simp add: suggestions_from_def sort_steps_def)
next
  case False
  then have "similar \<noteq> []" using weighted_steps_Nil by auto
  moreover have "unique_loop items {} [] = take 15 (first_occurrences {} (map step items))"
    for items
    using unique_loop_closed_form[of "[]" items] by simp
  ultimately show ?thesis
    using False by (simp add: suggestions_from_def Let_def)
qed

text \<open>
  Claim C7. The suggested step list of \<^verbatim>\<open>get_strategy_suggestions\<close> (which is
  \<open>suggestions_from\<close> applied to the fetched records) has no duplicate step text and at
  most 15 entries: exactly the smaller of 15 and the number of distinct steps of the
  contributing records, so 30 distinct steps yield 15. Each step stands at the place of its
  occurrence of highest weight: the list is ordered by highest weight descending, and
  every step that is kept outweighs every step that the cap of 15 drops.
\<close>

theorem suggested_steps_unique_capped:
  assumes "out = suggested_steps (suggestions_from similar)"
    and "ws = weighted_steps similar"
  shows "distinct out
    \<and> length out \<le> 15
    \<and> length out = min 15 (card (step ` set ws))
    \<and> set out \<subseteq> step ` set ws
    \<and> sorted_wrt (outweighs ws) out
    \<and> (\<forall>s \<in> set out. \<forall>t \<in> step ` set ws - set out. outweighs ws s t)
    \<and> suggested_steps (fst (get_strategy_suggestions llm q m))
        = suggested_steps (suggestions_from (fst (find_similar_executions llm q 5 m)))"
proof -
  let ?D = "first_occurrences {} (map step (sort_steps ws))"
  have out: "out = take 15 ?D"
    using assms by (simp add: suggested_steps_closed_form)
  have setD: "set ?D = step ` set ws"
    by (simp add: set_first_occurrences set_sort_steps)
  have sortedD: "sorted_wrt (outweighs ws) ?D"
    using outweighs_first_occurrences[OF sort_steps_sorted, where S = "{}" and ws1 = ws]
      outweighs_cong[OF set_sort_steps, of ws]
    by simp
  have c1: "distinct out" using out by (simp add: distinct_first_occurrences)
  have c2: "length out \<le> 15" using out by simp
  have c3: "length out = min 15 (card (step ` set ws))"
    using out by (simp add: length_first_occurrences set_sort_steps min.commute)
  have c4: "set out \<subseteq> step ` set ws"
    using out setD set_take_subset[of 15 ?D] by simp
  have c5: "sorted_wrt (outweighs ws) out"
    using out sortedD by (simp add: sorted_wrt_take)
  have c6: "\<forall>s \<in> set out. \<forall>t \<in> step ` set ws - set out. outweighs ws s t"
  proof (intro ballI)
    fix s t assume s: "s \<in> set out" and t: "t \<in> step ` set ws - set out"
    then have "t \<in> set ?D" "t \<notin> set (take 15 ?D)" using setD out by auto
    then show "outweighs ws s t"
      using sorted_wrt_take_closed[OF sortedD, of s 15 t] s out by blast
  qed
  have c7: "suggested_steps (fst (get_strategy_suggestions llm q m))
        = suggested_steps (suggestions_from (fst (find_similar_executions llm q 5 m)))"
    by (simp add: get_strategy_suggestions_fst)
  show ?thesis using c1 c2 c3 c4 c5 c6 c7 by blast
qed

theorem suggested_steps_unique_capped_witness:
  "suggested_steps (suggestions_from demo_similar) = [''open'', ''search'', ''summarize'']
   \<and> length (suggested_steps (suggestions_from demo_similar)) \<le> 15"
proof -
  have "length (suggested_steps (suggestions_from demo_similar)) \<le> 15"
    using suggested_steps_unique_capped [OF refl refl, of demo_similar] by blast
  moreover have "suggested_steps (suggestions_from demo_similar)
                   = [''open'', ''search'', ''summarize'']"
    by (simp add: demo_similar_def suggestions_from_def weighted_steps_def
        high_quality_records_def record_weight_def sort_steps_def Let_def)
  ultimately show ?thesis by simp
qed


subsection \<open>What the confidence can be\<close>

text \<open>
  Every contributing record adds at least 1 to the sum that is averaged, so the confidence
  of a suggestion is 0 (no suggestion) or at least 1, and exactly 1 once a successful five
  star record contributes.
\<close>

lemma contribution_ge_one:
  assumes "x \<in> set (high_quality_records similar)"
  shows "1 \<le> base_confidence x * record_weight x"
proof -
  have r: "4 \<le> rating (base x)" using assms by (simp add: high_quality_records_def)
  define w :: real where
    "w = (if rating (base x) = 5 then 3 else if rating (base x) = 4 then 3 / 2 else 1)"
  have ww: "w \<le> record_weight x"
  proof (cases "weighted_score x")
    case None
    then show ?thesis by (simp add: record_weight_def w_def)
  next
    case (Some s)
    have "0 < w" by (simp add: w_def)
    then have "s > 0 \<Longrightarrow> w * 1 \<le> w * (1 + s / 10)"
      by (intro mult_left_mono) auto
    then show ?thesis using Some by (auto simp: record_weight_def w_def Let_def)
  qed
  have bw: "1 \<le> base_confidence x * w"
  proof -
    consider "rating (base x) = 4" | "rating (base x) = 5" | "6 \<le> rating (base x)"
      using r by linarith
    then show ?thesis
    proof cases
      case 1
      then show ?thesis by (simp add: base_confidence_def w_def)
    next
      case 2
      then show ?thesis by (simp add: base_confidence_def w_def)
    next
      case 3
      then have "6 \<le> real_of_int (rating (base x))" by linarith
      then have "1 \<le> base_confidence x" by (simp add: base_confidence_def)
      moreover have "w = 1" using 3 by (simp add: w_def)
      ultimately show ?thesis by simp
    qed
  qed
  have "0 \<le> base_confidence x" using r by (simp add: base_confidence_def)
  then have "base_confidence x * w \<le> base_confidence x * record_weight x"
    using ww by (rule mult_left_mono[rotated])
  then show ?thesis using bw by linarith
qed

lemma sum_list_ge_length: "(\<forall>c \<in> set cs. (1::real) \<le> c) \<Longrightarrow> real (length cs) \<le> sum_list cs"
  by (induction cs) auto

lemma average_ge_one:
  assumes "confidence_scores similar \<noteq> []"
  shows "1 \<le> sum_list (confidence_scores similar) / real (length (confidence_scores similar))"
proof -
  have "\<forall>c \<in> set (confidence_scores similar). 1 \<le> c"
    using contribution_ge_one by (auto simp: confidence_scores_def)
  then have "real (length (confidence_scores similar)) \<le> sum_list (confidence_scores similar)"
    by (rule sum_list_ge_length)
  moreover have "0 < real (length (confidence_scores similar))" using assms by simp
  ultimately show ?thesis by (simp add: le_divide_eq)
qed

lemma avg_confidence_ge_one:
  assumes "confidence_scores similar \<noteq> []"
  shows "1 \<le> avg_confidence similar"
proof -
  let ?avg = "sum_list (confidence_scores similar) / real (length (confidence_scores similar))"
  let ?five = "five_star_count (high_quality_records similar)"
  have a: "1 \<le> ?avg" using assms by (rule average_ge_one)
  have "?avg * 1 \<le> ?avg * (1 + real ?five * (1 / 10))"
    using a by (intro mult_left_mono) auto
  then have "1 \<le> ?avg * (1 + real ?five * (1 / 10))" using a by linarith
  then show ?thesis using a assms by (simp add: avg_confidence_def Let_def)
qed

lemma avg_confidence_five_star:
  assumes "x \<in> set similar" and "rating (base x) = 5" and "success (base x)"
  shows "avg_confidence similar = 1"
proof -
  have hq: "x \<in> set (high_quality_records similar)"
    using assms by (simp add: high_quality_records_def)
  then have ne: "confidence_scores similar \<noteq> []"
    by (auto simp: confidence_scores_def)
  have "filter (\<lambda>r. rating (base r) = 5) (high_quality_records similar) \<noteq> []"
    using hq assms(2) by (auto simp: filter_empty_conv)
  then have five: "0 < five_star_count (high_quality_records similar)"
    by (simp add: five_star_count_def)
  let ?avg = "sum_list (confidence_scores similar) / real (length (confidence_scores similar))"
  let ?five = "five_star_count (high_quality_records similar)"
  have a: "1 \<le> ?avg" using ne by (rule average_ge_one)
  have "?avg * 1 \<le> ?avg * (1 + real ?five * (1 / 10))"
    using a by (intro mult_left_mono) auto
  then have "1 \<le> ?avg * (1 + real ?five * (1 / 10))" using a by linarith
  then show ?thesis using ne five by (simp add: avg_confidence_def Let_def)
qed

lemma confidence_zero_or_ge_one:
  "confidence (suggestions_from similar) = 0 \<or> 1 \<le> confidence (suggestions_from similar)"
proof (cases "weighted_steps similar = []")
  case True
  then show ?thesis by (simp add: suggestions_from_def)
next
  case False
  then have "high_quality_records similar \<noteq> []"
    by (auto simp: weighted_steps_def)
  then have "confidence_scores similar \<noteq> []" by (simp add: confidence_scores_def)
  then have "1 \<le> avg_confidence similar" by (rule avg_confidence_ge_one)
  then show ?thesis by (simp add: suggestions_from_def Let_def)
qed

end
